theory Spec2Isabelle
  imports Main
begin

section \<open>Observable effects of the connection manager\<close>

text \<open>
  The three scripts under \<open>src/\<close> patch \<open>ConnectionManager.kt\<close>. The Kotlin code they
  insert (\<open>new_retry_lines\<close>, \<open>new_first_scope\<close>, \<open>new_second_scope\<close>, which is the same
  text as \<open>new_launch_block\<close>, \<open>new_with_fallback\<close> and \<open>new_scan\<close>) is embedded below as
  functions that return the sequence of effects the code performs, in program order,
  together with its result. What the platform answers (the outcome of an asynchronous
  request, the contents of \<open>/proc/net/arp\<close> at a read, the reachability of a host) is an
  argument of the model.
\<close>

text \<open>Outcome reported to a \<open>WifiP2pManager.ActionListener\<close>: \<open>onSuccess()\<close> or
  \<open>onFailure(code)\<close>.\<close>

datatype action_result = ActionSuccess | ActionFailure int

text \<open>The log lines of the inserted code, one constructor per \<open>Log\<close> call, with the
  interpolated values as arguments.\<close>

datatype log_msg =
    ConnectReturned string nat nat
  | RefreshingPeerDiscovery
  | PeerDiscoveryRefreshTriggered
  | PeerDiscoveryRefreshFailed int
  | WaitingForDhcp nat
  | MacBasedArpFailed
  | ArpMissRetrying nat
  | ConnectedGoMode string
  | Separator
  | CouldNotResolveLog
  | ArpTableDump string
  | FoundFromArp string
  | NoClientInArp
  | ErrorReadingArp
  | StartingSubnetScan
  | FoundReachable string
  | NoClientInScan

text \<open>A call that a launched coroutine makes after its delay.\<close>

datatype call =
    InitiateConnection string nat
  | ResolveClientIpFromGroup string nat

datatype event =
    Log log_msg
  | Delay nat
  | DiscoverPeers
  | Launch nat call
  | ResolveIpFromArp string
  | ReadArpFile
  | Probe string nat
  | Await string
  | AssignClientIp "string option"
  | OnConnected string
  | RemoveGroup
  | OnFailure string

fun is_log :: "event \<Rightarrow> bool" where
  "is_log (Log m) = True"
| "is_log e = False"

fun is_launch :: "event \<Rightarrow> bool" where
  "is_launch (Launch d c) = True"
| "is_launch e = False"

fun is_on_failure :: "event \<Rightarrow> bool" where
  "is_on_failure (OnFailure m) = True"
| "is_on_failure e = False"

fun is_probe :: "event \<Rightarrow> bool" where
  "is_probe (Probe ip t) = True"
| "is_probe e = False"

fun is_await :: "event \<Rightarrow> bool" where
  "is_await (Await ip) = True"
| "is_await e = False"

text \<open>The events by which a run ends: the two callbacks of the caller and the teardown
  of the group.\<close>

fun is_outcome :: "event \<Rightarrow> bool" where
  "is_outcome (OnConnected ip) = True"
| "is_outcome (OnFailure m) = True"
| "is_outcome RemoveGroup = True"
| "is_outcome e = False"

section \<open>Connect retry (\<open>fix_connection_manager.py\<close>)\<close>

text \<open>Fix 2 of the script adds the constant next to \<open>CONNECT_RETRY_DELAY_MS = 2000L\<close>.\<close>

definition CONNECT_RETRY_DELAY_MS :: nat where
  "CONNECT_RETRY_DELAY_MS = 2000"

definition PEER_REDISCOVERY_DELAY_MS :: nat where
  "PEER_REDISCOVERY_DELAY_MS = 3500"

text \<open>The anonymous listener handed to \<open>manager.discoverPeers\<close>: both callbacks only log.\<close>

fun discoverPeers_listener :: "action_result \<Rightarrow> event list" where
  "discoverPeers_listener ActionSuccess = [Log PeerDiscoveryRefreshTriggered]"
| "discoverPeers_listener (ActionFailure code2) = [Log (PeerDiscoveryRefreshFailed code2)]"

text \<open>
  \<open>new_retry_lines\<close>: two log lines, the \<open>discoverPeers\<close> request, and the coroutine that
  waits \<open>PEER_REDISCOVERY_DELAY_MS\<close> and calls \<open>initiateConnection\<close> with
  \<open>connectAttempt + 1\<close>. \<open>MAX_CONNECT_RETRIES\<close> is declared in the patched file, not in the
  scripts, and is an argument.
\<close>

definition new_retry_lines :: "nat \<Rightarrow> string \<Rightarrow> string \<Rightarrow> nat \<Rightarrow> event list" where
  "new_retry_lines MAX_CONNECT_RETRIES deviceAddress errorMsg connectAttempt =
     [Log (ConnectReturned errorMsg connectAttempt MAX_CONNECT_RETRIES),
      Log RefreshingPeerDiscovery,
      DiscoverPeers,
      Launch PEER_REDISCOVERY_DELAY_MS (InitiateConnection deviceAddress (connectAttempt + 1))]"

text \<open>
  Modelled from the spec: the error branch of \<open>initiateConnection\<close> around the inserted
  lines (the test of the attempt counter against \<open>MAX_CONNECT_RETRIES\<close> and the terminal
  call of the failure callback) is in \<open>ConnectionManager.kt\<close>, which is not among the
  sources. Section 4.1: if \<open>attempt < MAX_CONNECT_RETRIES\<close> the retry lines run; if
  \<open>attempt >= MAX_CONNECT_RETRIES\<close> \<open>onFailure(message)\<close> is invoked once, with a message
  derived from the error code (here the argument \<open>errorMsg\<close>).
\<close>

definition on_connect_error :: "nat \<Rightarrow> string \<Rightarrow> string \<Rightarrow> nat \<Rightarrow> event list" where
  "on_connect_error MAX_CONNECT_RETRIES deviceAddress errorMsg connectAttempt =
     (if connectAttempt < MAX_CONNECT_RETRIES
      then new_retry_lines MAX_CONNECT_RETRIES deviceAddress errorMsg connectAttempt
      else [OnFailure errorMsg])"

text \<open>The effects of one failed connect attempt, with the later answer of the
  \<open>discoverPeers\<close> listener (if the request was made) appended.\<close>

definition connect_error_trace ::
  "nat \<Rightarrow> string \<Rightarrow> string \<Rightarrow> nat \<Rightarrow> action_result \<Rightarrow> event list" where
  "connect_error_trace MAX_CONNECT_RETRIES deviceAddress errorMsg connectAttempt rediscovery =
     (let evs = on_connect_error MAX_CONNECT_RETRIES deviceAddress errorMsg connectAttempt
      in if DiscoverPeers \<in> set evs then evs @ discoverPeers_listener rediscovery else evs)"

section \<open>Kotlin string operations used by the ARP lookup\<close>

text \<open>
  Text is a list of characters; a \<open>char\<close> stands for the character with that code (the
  ARP table is ASCII). \<open>Char.isWhitespace()\<close>, which \<open>trim()\<close> uses, holds for the codes
  9 to 13, 28 to 31, 32 and 160 in this range; the regular expression \<open>\s\<close> matches the
  codes 9 to 13 and 32 only.
\<close>

definition isWhitespace :: "char \<Rightarrow> bool" where
  "isWhitespace c =
     (let n = (of_char c :: nat) in (9 \<le> n \<and> n \<le> 13) \<or> (28 \<le> n \<and> n \<le> 32) \<or> n = 160)"

definition is_regex_space :: "char \<Rightarrow> bool" where
  "is_regex_space c = (let n = (of_char c :: nat) in (9 \<le> n \<and> n \<le> 13) \<or> n = 32)"

definition trim :: "string \<Rightarrow> string" where
  "trim s = rev (dropWhile isWhitespace (rev (dropWhile isWhitespace s)))"

text \<open>\<open>split("\\s+".toRegex())\<close>: the pieces between maximal runs of \<open>\s\<close>; a leading or
  trailing run leaves an empty piece, and a text without a match is returned whole.\<close>

function split_ws :: "string \<Rightarrow> string list" where
  "split_ws s =
     (let rest = dropWhile (\<lambda>c. \<not> is_regex_space c) s
      in if rest = [] then [s]
         else takeWhile (\<lambda>c. \<not> is_regex_space c) s # split_ws (dropWhile is_regex_space rest))"
  by pat_completeness auto

lemma dropWhile_shorter:
  "xs \<noteq> [] \<Longrightarrow> P (hd xs) \<Longrightarrow> length (dropWhile P xs) < length xs"
  by (cases xs) (simp_all add: le_imp_less_Suc length_dropWhile_le)

lemma dropWhile_not_hd: "dropWhile (\<lambda>c. \<not> P c) xs \<noteq> [] \<Longrightarrow> P (hd (dropWhile (\<lambda>c. \<not> P c) xs))"
  using hd_dropWhile [of "\<lambda>c. \<not> P c" xs] by simp

termination split_ws
proof (relation "measure length", simp, goal_cases)
  case (1 s rest)
  then have "length (dropWhile is_regex_space rest) < length rest"
    using dropWhile_shorter [of rest is_regex_space] dropWhile_not_hd [of is_regex_space s]
    by simp
  moreover have "length rest \<le> length s"
    using 1 by (simp add: length_dropWhile_le)
  ultimately show ?case by simp
qed

declare split_ws.simps [simp del]

text \<open>\<open>lines()\<close>: split at \<open>\r\n\<close>, \<open>\n\<close> and \<open>\r\<close>. The first argument collects the
  current line in reverse.\<close>

fun lines_from :: "string \<Rightarrow> string \<Rightarrow> string list" where
  "lines_from acc [] = [rev acc]"
| "lines_from acc (c # cs) =
     (if c = CHR 0x0D then
        (case cs of
           [] \<Rightarrow> rev acc # lines_from [] cs
         | d # ds \<Rightarrow> if d = CHR 0x0A then rev acc # lines_from [] ds
                    else rev acc # lines_from [] cs)
      else if c = CHR 0x0A then rev acc # lines_from [] cs
      else lines_from (c # acc) cs)"

definition lines :: "string \<Rightarrow> string list" where
  "lines s = lines_from [] s"

definition startsWith :: "string \<Rightarrow> string \<Rightarrow> bool" where
  "startsWith s p = (take (length p) s = p)"

definition firstOrNull :: "'a list \<Rightarrow> 'a option" where
  "firstOrNull xs = (case xs of [] \<Rightarrow> None | x # _ \<Rightarrow> Some x)"

section \<open>MAC-free ARP lookup (\<open>new_with_fallback\<close> in \<open>fix_go_ip_v2.py\<close>)\<close>

text \<open>What \<open>java.io.File("/proc/net/arp").readText()\<close> does at one call: it throws, or it
  returns the text of the file.\<close>

datatype read_result = ReadThrows | Contents string

datatype exn = Exception

text \<open>The \<open>for (line in arpTable.lines())\<close> loop, with its \<open>continue\<close> and its
  \<open>return ip\<close>.\<close>

fun arp_line_loop :: "string list \<Rightarrow> string option" where
  "arp_line_loop [] = None"
| "arp_line_loop (line # rest) =
     (case firstOrNull (split_ws (trim line)) of
        None \<Rightarrow> arp_line_loop rest
      | Some ip \<Rightarrow>
          if startsWith ip ''192.168.49.'' \<and> ip \<noteq> ''192.168.49.1'' then Some ip
          else arp_line_loop rest)"

text \<open>The body of the \<open>try\<close> block: \<open>Inl\<close> is an exception leaving the block.\<close>

definition arp_try_block :: "read_result \<Rightarrow> exn + (string option \<times> event list)" where
  "arp_try_block file =
     (case file of
        ReadThrows \<Rightarrow> Inl Exception
      | Contents arpTable \<Rightarrow>
          (case arp_line_loop (lines arpTable) of
             Some ip \<Rightarrow> Inr (Some ip, [ReadArpFile, Log (ArpTableDump arpTable), Log (FoundFromArp ip)])
           | None \<Rightarrow> Inr (None, [ReadArpFile, Log (ArpTableDump arpTable), Log NoClientInArp])))"

text \<open>\<open>resolveAnyP2pClientFromArp\<close>: the \<open>try\<close> block with \<open>catch (e: Exception)\<close>, which
  logs and returns \<open>null\<close>.\<close>

definition resolveAnyP2pClientFromArp :: "read_result \<Rightarrow> exn + (string option \<times> event list)" where
  "resolveAnyP2pClientFromArp file =
     (case arp_try_block file of
        Inl e \<Rightarrow> Inr (None, [ReadArpFile, Log ErrorReadingArp])
      | Inr r \<Rightarrow> Inr r)"

section \<open>Parallel subnet scan (\<open>new_scan\<close> in \<open>fix_go_ip_v2.py\<close>)\<close>

text \<open>The decimal text of a number, as the string template \<open>"192.168.49.$i"\<close> renders
  \<open>i\<close>.\<close>

definition digit_char :: "nat \<Rightarrow> char" where
  "digit_char d = ''0123456789'' ! d"

function dec :: "nat \<Rightarrow> string" where
  "dec n = (if n < 10 then [digit_char n] else dec (n div 10) @ [digit_char (n mod 10)])"
  by pat_completeness auto
termination
  by (relation "measure id") auto

declare dec.simps [simp del]

text \<open>The values of \<open>start..endInclusive step n\<close>, in the order the \<open>for\<close> loop takes them.\<close>

function progression :: "nat \<Rightarrow> nat \<Rightarrow> nat \<Rightarrow> nat list" where
  "progression start endInclusive step =
     (if step = 0 \<or> endInclusive < start then []
      else start # progression (start + step) endInclusive step)"
  by pat_completeness auto
termination
  by (relation "measure (\<lambda>(start, endInclusive, step). Suc endInclusive - start)") auto

declare progression.simps [simp del]

definition batchSize :: nat where
  "batchSize = 25"

text \<open>What \<open>InetAddress.getByName(candidateIp).isReachable(timeout)\<close> does for one
  candidate: \<open>true\<close>, \<open>false\<close>, or an exception.\<close>

datatype probe_result = Reachable | Unreachable | ProbeThrows

text \<open>The body of one \<open>async\<close> block, with its \<open>try\<close>/\<open>catch\<close>.\<close>

definition candidateIp :: "nat \<Rightarrow> string" where
  "candidateIp i = ''192.168.49.'' @ dec i"

definition probe :: "(string \<Rightarrow> nat \<Rightarrow> probe_result) \<Rightarrow> nat \<Rightarrow> string option" where
  "probe isReachable i =
     (case isReachable (candidateIp i) 500 of
        Reachable \<Rightarrow> Some (candidateIp i)
      | Unreachable \<Rightarrow> None
      | ProbeThrows \<Rightarrow> None)"

text \<open>\<open>batchStart..batchEnd\<close> with \<open>batchEnd = minOf(batchStart + batchSize - 1, 254)\<close>.\<close>

definition batch :: "nat \<Rightarrow> nat list" where
  "batch batchStart = [batchStart ..< Suc (min (batchStart + batchSize - 1) 254)]"

text \<open>The loop over the batches. \<open>Probe\<close> is the start of one \<open>async\<close> block, which
  probes its address with the timeout given; \<open>Await\<close> is \<open>it.await()\<close> on its result. The
  \<open>map\<close> starts the probes of all addresses of a batch, then \<open>mapNotNull\<close> awaits them in
  the order of the addresses, and only then are the results inspected.\<close>

fun batch_loop :: "(string \<Rightarrow> nat \<Rightarrow> probe_result) \<Rightarrow> nat list \<Rightarrow> string option \<times> event list" where
  "batch_loop isReachable [] = (None, [Log NoClientInScan])"
| "batch_loop isReachable (batchStart # later) =
     (let results = List.map_filter (probe isReachable) (batch batchStart);
          deferreds = map (\<lambda>i. Probe (candidateIp i) 500) (batch batchStart)
                      @ map (\<lambda>i. Await (candidateIp i)) (batch batchStart)
      in if results \<noteq> [] then (Some (hd results), deferreds @ [Log (FoundReachable (hd results))])
         else (fst (batch_loop isReachable later), deferreds @ snd (batch_loop isReachable later)))"

definition discoverP2pClientIp :: "(string \<Rightarrow> nat \<Rightarrow> probe_result) \<Rightarrow> string option \<times> event list" where
  "discoverP2pClientIp isReachable =
     (let r = batch_loop isReachable (progression 2 254 batchSize)
      in (fst r, Log StartingSubnetScan # snd r))"

text \<open>A host answers the probe of the scan; a batch holds a host that answers.\<close>
definition reachable :: "(string \<Rightarrow> nat \<Rightarrow> probe_result) \<Rightarrow> nat \<Rightarrow> bool" where
  "reachable r i = (r (candidateIp i) 500 = Reachable)"

definition hit :: "(string \<Rightarrow> nat \<Rightarrow> probe_result) \<Rightarrow> nat \<Rightarrow> bool" where
  "hit r batchStart = (filter (reachable r) (batch batchStart) \<noteq> [])"

text \<open>The batches a scan visits: those before the first batch with a host that answers,
  and that batch.\<close>

definition visited :: "(string \<Rightarrow> nat \<Rightarrow> probe_result) \<Rightarrow> nat list \<Rightarrow> nat list" where
  "visited r bs = takeWhile (\<lambda>b. \<not> hit r b) bs @ take 1 (dropWhile (\<lambda>b. \<not> hit r b) bs)"

text \<open>Reading a decimal text back: the digits, and the number a text of digits stands
  for.\<close>

definition is_digit :: "char \<Rightarrow> bool" where
  "is_digit c = (48 \<le> (of_char c :: nat) \<and> (of_char c :: nat) \<le> 57)"

definition digit_value :: "char \<Rightarrow> nat" where
  "digit_value c = of_char c - 48"

definition decimal_value :: "string \<Rightarrow> nat" where
  "decimal_value s = foldl (\<lambda>n c. 10 * n + digit_value c) 0 s"

section \<open>Address resolution (\<open>new_second_scope\<close> in \<open>fix_go_ip_v3.py\<close>,
  \<open>new_launch_block\<close> in \<open>fix_go_ip_v2.py\<close>)\<close>

text \<open>
  What the surroundings answer during one run of the coroutine. \<open>resolveIpFromArp\<close> and
  \<open>DHCP_SETTLE_DELAY_MS\<close> are declared in the patched file, not in the scripts, and are taken
  as they are. \<open>arpFile k\<close> is what reading \<open>/proc/net/arp\<close> gives at the \<open>k\<close>-th read of the
  run (counted from 0); \<open>removeGroup\<close> is what the listener of \<open>manager.removeGroup\<close> is
  told.
\<close>

record env =
  DHCP_SETTLE_DELAY_MS :: nat
  resolveIpFromArp :: "string \<Rightarrow> string option"
  arpFile :: "nat \<Rightarrow> read_result"
  isReachable :: "string \<Rightarrow> nat \<Rightarrow> probe_result"
  removeGroup :: action_result

text \<open>The local state of the coroutine: the variable \<open>clientIp\<close>, the number of reads of
  the ARP file so far, and the effects so far.\<close>

record rstate =
  clientIp :: "string option"
  arpReads :: nat
  trace :: "event list"

definition then_do :: "exn + 'a \<Rightarrow> ('a \<Rightarrow> exn + 'b) \<Rightarrow> exn + 'b" where
  "then_do m f = (case m of Inl e \<Rightarrow> Inl e | Inr x \<Rightarrow> f x)"

text \<open>The statement \<open>clientIp = resolveAnyP2pClientFromArp()\<close>.\<close>

definition assign_from_arp :: "env \<Rightarrow> rstate \<Rightarrow> exn + rstate" where
  "assign_from_arp w s =
     then_do (resolveAnyP2pClientFromArp (arpFile w (arpReads s)))
       (\<lambda>(ip, evs). Inr \<lparr>clientIp = ip, arpReads = Suc (arpReads s),
                           trace = trace s @ evs @ [AssignClientIp ip]\<rparr>)"

text \<open>Step 1: the settle delay and \<open>var clientIp = resolveIpFromArp(...)\<close>.\<close>

definition step1 :: "env \<Rightarrow> string \<Rightarrow> rstate" where
  "step1 w deviceAddress =
     (let ip = resolveIpFromArp w deviceAddress
      in \<lparr>clientIp = ip, arpReads = 0,
          trace = [Log (WaitingForDhcp (DHCP_SETTLE_DELAY_MS w)), Delay (DHCP_SETTLE_DELAY_MS w),
                   ResolveIpFromArp deviceAddress, AssignClientIp ip]\<rparr>)"

text \<open>Step 2: MAC-free ARP.\<close>

definition step2 :: "env \<Rightarrow> rstate \<Rightarrow> exn + rstate" where
  "step2 w s =
     (if clientIp s = None
      then assign_from_arp w (s\<lparr>trace := trace s @ [Log MacBasedArpFailed]\<rparr>)
      else Inr s)"

text \<open>Step 3: \<open>for (retryArp in 1..3)\<close> with its \<open>break\<close>.\<close>

fun retry_loop :: "env \<Rightarrow> nat list \<Rightarrow> rstate \<Rightarrow> exn + rstate" where
  "retry_loop w [] s = Inr s"
| "retry_loop w (retryArp # later) s =
     then_do
       (assign_from_arp w (s\<lparr>trace := trace s @ [Log (ArpMissRetrying retryArp), Delay 2000]\<rparr>))
       (\<lambda>s'. if clientIp s' \<noteq> None then Inr s' else retry_loop w later s')"

definition step3 :: "env \<Rightarrow> rstate \<Rightarrow> exn + rstate" where
  "step3 w s = (if clientIp s = None then retry_loop w (progression 1 3 1) s else Inr s)"

text \<open>Step 4: the subnet scan.\<close>

definition step4 :: "env \<Rightarrow> rstate \<Rightarrow> rstate" where
  "step4 w s =
     (if clientIp s = None
      then (let r = discoverP2pClientIp (isReachable w)
            in s\<lparr>clientIp := fst r, trace := trace s @ snd r @ [AssignClientIp (fst r)]\<rparr>)
      else s)"

text \<open>The listener handed to \<open>manager.removeGroup\<close>: both callbacks call the failure
  callback of the caller, with different messages, and neither logs.\<close>

fun removeGroup_listener :: "action_result \<Rightarrow> event list" where
  "removeGroup_listener ActionSuccess = [OnFailure ''Could not resolve client IP'']"
| "removeGroup_listener (ActionFailure code) =
     [OnFailure ''Could not resolve client IP, cleanup failed'']"

text \<open>The final \<open>if (clientIp != null) ... else ...\<close>.\<close>

definition report :: "env \<Rightarrow> rstate \<Rightarrow> rstate" where
  "report w s =
     (case clientIp s of
        Some ip \<Rightarrow>
          s\<lparr>trace := trace s @ [Log Separator, Log (ConnectedGoMode ip), Log Separator,
                                 OnConnected ip]\<rparr>
      | None \<Rightarrow>
          s\<lparr>trace := trace s @ [Log CouldNotResolveLog, RemoveGroup]
                        @ removeGroup_listener (removeGroup w)\<rparr>)"

definition new_second_scope :: "env \<Rightarrow> string \<Rightarrow> exn + rstate" where
  "new_second_scope w deviceAddress =
     then_do (step2 w (step1 w deviceAddress))
       (\<lambda>s2. then_do (step3 w s2)
          (\<lambda>s3. Inr (report w (step4 w s3))))"

section \<open>The stages of a resolution run\<close>

text \<open>
  The four stages of the resolver, in the order of the specification; the ARP retry has
  one stage per repetition. A stage shows in the effects of a run by the event that
  opens it: the call of \<open>resolveIpFromArp\<close>, and the log lines that precede the MAC-free
  lookup, each retry and the scan.
\<close>

datatype stage = MacArp | MacFreeArp | ArpRetry nat | SubnetScan

fun stage_of_event :: "event \<Rightarrow> stage option" where
  "stage_of_event (ResolveIpFromArp m) = Some MacArp"
| "stage_of_event (Log MacBasedArpFailed) = Some MacFreeArp"
| "stage_of_event (Log (ArpMissRetrying n)) = Some (ArpRetry n)"
| "stage_of_event (Log StartingSubnetScan) = Some SubnetScan"
| "stage_of_event e = None"

fun stages_run :: "event list \<Rightarrow> stage list" where
  "stages_run [] = []"
| "stages_run (e # evs) =
     (case stage_of_event e of None \<Rightarrow> stages_run evs | Some st \<Rightarrow> st # stages_run evs)"

text \<open>The operations on the surroundings: waiting, the two kinds of ARP lookup and the
  probes.\<close>

fun is_operation :: "event \<Rightarrow> bool" where
  "is_operation (Delay d) = True"
| "is_operation (ResolveIpFromArp m) = True"
| "is_operation ReadArpFile = True"
| "is_operation (Probe ip t) = True"
| "is_operation e = False"

fun assigned :: "event \<Rightarrow> string option option" where
  "assigned (AssignClientIp v) = Some v"
| "assigned e = None"

text \<open>The values written to \<open>clientIp\<close> during a run, in order.\<close>

fun assignments :: "event list \<Rightarrow> string option list" where
  "assignments [] = []"
| "assignments (e # evs) =
     (case assigned e of None \<Rightarrow> assignments evs | Some v \<Rightarrow> v # assignments evs)"

text \<open>What \<open>resolveAnyP2pClientFromArp\<close> returns and does on a given state of the file.\<close>

definition arp_value :: "read_result \<Rightarrow> string option" where
  "arp_value file = (case resolveAnyP2pClientFromArp file of Inr (ip, evs) \<Rightarrow> ip | Inl e \<Rightarrow> None)"

definition arp_events :: "read_result \<Rightarrow> event list" where
  "arp_events file = (case resolveAnyP2pClientFromArp file of Inr (ip, evs) \<Rightarrow> evs | Inl e \<Rightarrow> [])"

text \<open>What each stage yields when it runs, and what it does. The MAC-free lookup is the
  read number 0 of the ARP file, the \<open>n\<close>-th retry the read number \<open>n\<close>.\<close>

definition stage_value :: "env \<Rightarrow> string \<Rightarrow> stage \<Rightarrow> string option" where
  "stage_value w deviceAddress st =
     (case st of
        MacArp \<Rightarrow> resolveIpFromArp w deviceAddress
      | MacFreeArp \<Rightarrow> arp_value (arpFile w 0)
      | ArpRetry n \<Rightarrow> arp_value (arpFile w n)
      | SubnetScan \<Rightarrow> fst (discoverP2pClientIp (isReachable w)))"

definition stage_ops :: "env \<Rightarrow> string \<Rightarrow> stage \<Rightarrow> event list" where
  "stage_ops w deviceAddress st =
     (case st of
        MacArp \<Rightarrow> [Delay (DHCP_SETTLE_DELAY_MS w), ResolveIpFromArp deviceAddress]
      | MacFreeArp \<Rightarrow> [ReadArpFile]
      | ArpRetry n \<Rightarrow> [Delay 2000, ReadArpFile]
      | SubnetScan \<Rightarrow> filter is_probe (snd (discoverP2pClientIp (isReachable w))))"

definition stage_order :: "stage list" where
  "stage_order = [MacArp, MacFreeArp, ArpRetry 1, ArpRetry 2, ArpRetry 3, SubnetScan]"

text \<open>Running stages in order up to the first that yields a value: the stages run, and
  the value.\<close>

fun run_stages :: "(stage \<Rightarrow> string option) \<Rightarrow> stage list \<Rightarrow> stage list \<times> string option" where
  "run_stages v [] = ([], None)"
| "run_stages v (st # sts) =
     (case v st of
        Some ip \<Rightarrow> ([st], Some ip)
      | None \<Rightarrow> (st # fst (run_stages v sts), snd (run_stages v sts)))"

text \<open>The message that the failure callback receives after the teardown, by the outcome
  of the teardown.\<close>

definition failure_message :: "action_result \<Rightarrow> string" where
  "failure_message r =
     (case r of
        ActionSuccess \<Rightarrow> ''Could not resolve client IP''
      | ActionFailure code \<Rightarrow> ''Could not resolve client IP, cleanup failed'')"

text \<open>The effects of a finished run.\<close>

definition run_trace :: "exn + rstate \<Rightarrow> exn + event list" where
  "run_trace run = (case run of Inl e \<Rightarrow> Inl e | Inr s \<Rightarrow> Inr (trace s))"

text \<open>Surroundings for the examples: a run in which the MAC-based lookup answers at once
  with the given address, and a run in which every stage fails and the teardown reports the
  error code 2.\<close>

definition env_mac_hit :: "string \<Rightarrow> env" where
  "env_mac_hit ip =
     \<lparr>DHCP_SETTLE_DELAY_MS = 1500, resolveIpFromArp = (\<lambda>m. Some ip),
      arpFile = (\<lambda>k. ReadThrows), isReachable = (\<lambda>a t. Unreachable),
      removeGroup = ActionSuccess\<rparr>"

definition env_all_fail :: env where
  "env_all_fail =
     \<lparr>DHCP_SETTLE_DELAY_MS = 1500, resolveIpFromArp = (\<lambda>m. None),
      arpFile = (\<lambda>k. ReadThrows), isReachable = (\<lambda>a t. Unreachable),
      removeGroup = ActionFailure 2\<rparr>"

section \<open>Connected clients\<close>

text \<open>
  Modelled from the spec: the record of a connected client and the code that decides
  whether a client is resolved again are in \<open>ConnectionManager.kt\<close>, which is not among the
  sources; the scripts replace only the body of the resolution. Section 3: a
  ConnectedClient has a device address and an optional resolved IP, set exactly once and
  never overwritten afterward. Section 7: resolving an already-resolved client a second
  time returns the previously stored IP without re-running any stage. The resolution of a
  client that has no stored IP is \<open>new_second_scope\<close>, embedded from the source above; its
  value is stored in the record.
\<close>

record ConnectedClient =
  deviceAddress :: string
  resolvedIp :: "string option"



section \<open>Waiting for the group info (\<open>new_first_scope\<close> in \<open>fix_go_ip_v3.py\<close>)\<close>

text \<open>
  \<open>new_first_scope\<close>: the coroutine that waits \<open>CONNECTION_RETRY_DELAY_MS\<close> and calls
  \<open>resolveClientIpFromGroup\<close> again with \<open>attempt + 1\<close>. The constant is declared in the
  patched file, not in the scripts, and is an argument.
\<close>

definition new_first_scope :: "nat \<Rightarrow> string \<Rightarrow> nat \<Rightarrow> event list" where
  "new_first_scope CONNECTION_RETRY_DELAY_MS originalDeviceAddress attempt =
     [Launch CONNECTION_RETRY_DELAY_MS
        (ResolveClientIpFromGroup originalDeviceAddress (attempt + 1))]"

text \<open>
  Modelled from the spec: the function \<open>resolveClientIpFromGroup\<close> around the two inserted
  blocks (the test whether the group info is there, the search for the client and the
  failure when it is not found) is in \<open>ConnectionManager.kt\<close>, which is not among the
  sources; the script only says that the first block follows the log line "Group info
  null, retrying" and that the second is in the branch where \<open>targetClient\<close> was found.
  Section 4.2: if the group info is unavailable, the watcher retries after
  \<open>CONNECTION_RETRY_DELAY_MS\<close>, re-invoking itself with \<open>attempt+1\<close>; when it is available,
  it locates the target client by matching device address against the requested peer;
  absence of a match is immediate failure (\<open>ClientNotFound\<close>), not retried. Section 3: a
  GroupInfo has an ownership flag and the connected clients in order.
\<close>

record GroupInfo =
  isGroupOwner :: bool
  clientList :: "ConnectedClient list"

definition resolveClientIpFromGroup ::
  "nat \<Rightarrow> env \<Rightarrow> GroupInfo option \<Rightarrow> string \<Rightarrow> nat \<Rightarrow> exn + event list" where
  "resolveClientIpFromGroup CONNECTION_RETRY_DELAY_MS w info originalDeviceAddress attempt =
     (case info of
        None \<Rightarrow> Inr (new_first_scope CONNECTION_RETRY_DELAY_MS originalDeviceAddress attempt)
      | Some g \<Rightarrow>
          (case find (\<lambda>c. deviceAddress c = originalDeviceAddress) (clientList g) of
             None \<Rightarrow> Inr [OnFailure ''ClientNotFound'']
           | Some targetClient \<Rightarrow> run_trace (new_second_scope w (deviceAddress targetClient))))"

text \<open>
  The watcher over time. The list holds what the successive requests for the group info
  answer; a launched call of \<open>resolveClientIpFromGroup\<close> runs with the next answer. When
  the answers are used up the last launched call is still waiting.
\<close>

fun group_watch ::
  "nat \<Rightarrow> env \<Rightarrow> GroupInfo option list \<Rightarrow> string \<Rightarrow> nat \<Rightarrow> exn + event list" where
  "group_watch d w [] addr attempt = Inr []"
| "group_watch d w (info # later) addr attempt =
     then_do (resolveClientIpFromGroup d w info addr attempt)
       (\<lambda>evs. if Launch d (ResolveClientIpFromGroup addr (attempt + 1)) \<in> set evs
              then then_do (group_watch d w later addr (attempt + 1)) (\<lambda>evs'. Inr (evs @ evs'))
              else Inr evs)"

text \<open>A group for the examples: its only client is not the requested peer
  \<open>aa:bb:cc:dd:ee:ff\<close>.\<close>

definition example_group :: GroupInfo where
  "example_group =
     \<lparr>isGroupOwner = True,
      clientList = [\<lparr>deviceAddress = ''11:22:33:44:55:66'', resolvedIp = None\<rparr>]\<rparr>"

section \<open>ARP tables as the kernel prints them\<close>

text \<open>
  The lookup accepts a first field by its text: it starts with \<open>192.168.49.\<close> and is not
  \<open>192.168.49.1\<close>.
\<close>

definition is_client_field :: "string \<Rightarrow> bool" where
  "is_client_field ip = (startsWith ip ''192.168.49.'' \<and> ip \<noteq> ''192.168.49.1'')"

text \<open>The first field of a line: the text of the trimmed line before its first run of
  \<open>\s\<close>.\<close>

definition first_field :: "string \<Rightarrow> string" where
  "first_field line = takeWhile (\<lambda>c. \<not> is_regex_space c) (trim line)"

text \<open>The characters of an address in dotted decimal.\<close>

definition ip_char :: "char \<Rightarrow> bool" where
  "ip_char c = (is_digit c \<or> c = CHR ''.'')"

text \<open>
  Following the specification's words: an ARP entry has an IP address (four octets), a
  link-layer address and an interface. An address lies in the group subnet 192.168.49.0/24
  when its first three octets are 192, 168 and 49; the group owner's address is
  192.168.49.1.
\<close>

record arp_entry =
  entry_ip :: "nat \<times> nat \<times> nat \<times> nat"
  entry_hw :: string
  entry_iface :: string

definition in_group_subnet :: "nat \<times> nat \<times> nat \<times> nat \<Rightarrow> bool" where
  "in_group_subnet a = (case a of (a1, a2, a3, a4) \<Rightarrow> a1 = 192 \<and> a2 = 168 \<and> a3 = 49)"

definition owner_address :: "nat \<times> nat \<times> nat \<times> nat" where
  "owner_address = (192, 168, 49, 1)"

definition is_client_entry :: "arp_entry \<Rightarrow> bool" where
  "is_client_entry e = (in_group_subnet (entry_ip e) \<and> entry_ip e \<noteq> owner_address)"

text \<open>The text of \<open>/proc/net/arp\<close> for a list of entries: the header line, then one line
  per entry with the address in dotted decimal first, each line ended by a line feed.\<close>

definition show_ip :: "nat \<times> nat \<times> nat \<times> nat \<Rightarrow> string" where
  "show_ip a =
     (case a of (a1, a2, a3, a4) \<Rightarrow> dec a1 @ ''.'' @ dec a2 @ ''.'' @ dec a3 @ ''.'' @ dec a4)"

definition arp_header :: string where
  "arp_header = ''IP address       HW type     Flags       HW address            Mask     Device''"

definition render_row :: "arp_entry \<Rightarrow> string" where
  "render_row e =
     show_ip (entry_ip e) @ ''     0x1         0x2         '' @ entry_hw e
       @ ''     *        '' @ entry_iface e"

definition render_table :: "arp_entry list \<Rightarrow> string" where
  "render_table es = arp_header @ [CHR 0x0A] @ concat (map (\<lambda>e. render_row e @ [CHR 0x0A]) es)"

definition no_line_break :: "string \<Rightarrow> bool" where
  "no_line_break s = list_all (\<lambda>c. c \<noteq> CHR 0x0A \<and> c \<noteq> CHR 0x0D) s"

text \<open>Following the specification's words (the cache is a text of ip, mac, iface rows): a
  line that is not blank and has fewer than three fields is not a row of an ARP table.\<close>

definition row_has_columns :: "string \<Rightarrow> bool" where
  "row_has_columns line = (trim line = [] \<or> 3 \<le> length (split_ws (trim line)))"

definition malformed :: "string \<Rightarrow> bool" where
  "malformed arpTable = (\<not> list_all row_has_columns (lines arpTable))"

text \<open>A table for the examples: the group owner itself, a host of another network, and two
  clients of the group.\<close>

definition example_entries :: "arp_entry list" where
  "example_entries =
     [\<lparr>entry_ip = (192, 168, 49, 1), entry_hw = ''02:00:00:00:01:00'', entry_iface = ''p2p0''\<rparr>,
      \<lparr>entry_ip = (10, 0, 0, 5), entry_hw = ''3c:5a:b4:00:11:22'', entry_iface = ''wlan0''\<rparr>,
      \<lparr>entry_ip = (192, 168, 49, 12), entry_hw = ''aa:bb:cc:dd:ee:ff'', entry_iface = ''p2p0''\<rparr>,
      \<lparr>entry_ip = (192, 168, 49, 40), entry_hw = ''aa:bb:cc:dd:ee:00'', entry_iface = ''p2p0''\<rparr>]"

section \<open>Connect retry: theorems\<close>

text \<open>
  C1. For every attempt from 1 to \<open>MAX_CONNECT_RETRIES - 1\<close>, a connect error makes exactly
  one \<open>discoverPeers\<close> call and schedules exactly one retry of \<open>initiateConnection\<close> with
  \<open>attempt + 1\<close> after \<open>PEER_REDISCOVERY_DELAY_MS\<close> = 3500 ms, and does not call the failure
  callback; once the attempt has reached \<open>MAX_CONNECT_RETRIES\<close>, a connect error calls the
  failure callback exactly once, schedules no retry and makes no rediscovery call.
\<close>

theorem connect_error_retry_policy:
  "(1 \<le> a \<and> a < m \<longrightarrow>
      count_list (connect_error_trace m dev msg a r) DiscoverPeers = 1
      \<and> filter is_launch (connect_error_trace m dev msg a r)
          = [Launch 3500 (InitiateConnection dev (a + 1))]
      \<and> filter is_on_failure (connect_error_trace m dev msg a r) = [])
   \<and> (m \<le> a \<longrightarrow>
      filter is_on_failure (connect_error_trace m dev msg a r) = [OnFailure msg]
      \<and> filter is_launch (connect_error_trace m dev msg a r) = []
      \<and> count_list (connect_error_trace m dev msg a r) DiscoverPeers = 0)"
  by (cases r)
     (simp_all add: connect_error_trace_def on_connect_error_def new_retry_lines_def
        PEER_REDISCOVERY_DELAY_MS_def)

theorem connect_error_retry_policy_witness:
  "count_list (connect_error_trace 3 ''aa:bb:cc:dd:ee:ff'' ''ERROR'' 1 ActionSuccess)
      DiscoverPeers = 1
   \<and> filter is_launch (connect_error_trace 3 ''aa:bb:cc:dd:ee:ff'' ''ERROR'' 1 ActionSuccess)
      = [Launch 3500 (InitiateConnection ''aa:bb:cc:dd:ee:ff'' 2)]
   \<and> filter is_on_failure (connect_error_trace 3 ''aa:bb:cc:dd:ee:ff'' ''ERROR'' 3 ActionSuccess)
      = [OnFailure ''ERROR'']
   \<and> filter is_launch (connect_error_trace 3 ''aa:bb:cc:dd:ee:ff'' ''ERROR'' 3 ActionSuccess)
      = []"
  using connect_error_retry_policy [of 1 3 "''aa:bb:cc:dd:ee:ff''" "''ERROR''" ActionSuccess]
    connect_error_retry_policy [of 3 3 "''aa:bb:cc:dd:ee:ff''" "''ERROR''" ActionSuccess]
  by simp

text \<open>
  C7. Peer rediscovery during a connect retry is fire-and-forget: whatever the
  \<open>discoverPeers\<close> listener reports, its answer adds one log line and nothing else, and
  the retry of \<open>initiateConnection\<close> is scheduled all the same.
\<close>

theorem rediscovery_fire_and_forget:
  "a < m \<Longrightarrow>
     filter (\<lambda>e. \<not> is_log e) (connect_error_trace m dev msg a r)
       = [DiscoverPeers, Launch PEER_REDISCOVERY_DELAY_MS (InitiateConnection dev (a + 1))]
     \<and> connect_error_trace m dev msg a r
       = new_retry_lines m dev msg a @ discoverPeers_listener r
     \<and> list_all is_log (discoverPeers_listener r)
     \<and> length (discoverPeers_listener r) = 1"
  by (cases r)
     (simp_all add: connect_error_trace_def on_connect_error_def new_retry_lines_def)

theorem rediscovery_fire_and_forget_witness:
  "filter (\<lambda>e. \<not> is_log e)
      (connect_error_trace 3 ''aa:bb:cc:dd:ee:ff'' ''BUSY'' 2 (ActionFailure 2))
     = [DiscoverPeers, Launch PEER_REDISCOVERY_DELAY_MS (InitiateConnection ''aa:bb:cc:dd:ee:ff'' 3)]
   \<and> filter (\<lambda>e. \<not> is_log e)
      (connect_error_trace 3 ''aa:bb:cc:dd:ee:ff'' ''BUSY'' 2 ActionSuccess)
     = [DiscoverPeers, Launch PEER_REDISCOVERY_DELAY_MS (InitiateConnection ''aa:bb:cc:dd:ee:ff'' 3)]"
proof -
  have h: "(2::nat) < 3" by simp
  note t1 = rediscovery_fire_and_forget
    [OF h, of "''aa:bb:cc:dd:ee:ff''" "''BUSY''" "ActionFailure 2", THEN conjunct1]
  note t2 = rediscovery_fire_and_forget
    [OF h, of "''aa:bb:cc:dd:ee:ff''" "''BUSY''" ActionSuccess, THEN conjunct1]
  show ?thesis using t1 t2 by simp
qed

section \<open>Subnet scan: theorems\<close>

lemma map_filter_probe:
  "List.map_filter (probe r) xs = map candidateIp (filter (reachable r) xs)"
  by (induction xs) (simp_all add: List.map_filter_simps probe_def reachable_def split: probe_result.splits)

lemma batch_loop_result:
  "fst (batch_loop r bs) =
     (case find (hit r) bs of
        None \<Rightarrow> None
      | Some b \<Rightarrow> Some (candidateIp (hd (filter (reachable r) (batch b)))))"
  by (induction bs) (simp_all add: map_filter_probe hit_def hd_map Let_def)

lemma batch_loop_probes:
  "filter is_probe (snd (batch_loop r bs)) =
     map (\<lambda>i. Probe (candidateIp i) 500)
       (concat (map batch (takeWhile (\<lambda>b. \<not> hit r b) bs @ take 1 (dropWhile (\<lambda>b. \<not> hit r b) bs))))"
  by (induction bs) (simp_all add: map_filter_probe hit_def Let_def filter_map comp_def)

lemma batch_loop_async:
  "filter (\<lambda>e. is_probe e \<or> is_await e) (snd (batch_loop r bs)) =
     concat (map (\<lambda>b. map (\<lambda>i. Probe (candidateIp i) 500) (batch b)
                       @ map (\<lambda>i. Await (candidateIp i)) (batch b))
               (visited r bs))"
  by (induction bs) (simp_all add: visited_def map_filter_probe hit_def Let_def filter_map comp_def)

lemma digit_value_digit_char: "d < 10 \<Longrightarrow> digit_value (digit_char d) = d"
proof -
  assume "d < 10"
  then have "d \<in> {0, 1, 2, 3, 4, 5, 6, 7, 8, 9}"
    by auto
  then show ?thesis
    by (auto simp: digit_value_def digit_char_def)
qed

lemma is_digit_digit_char: "d < 10 \<Longrightarrow> is_digit (digit_char d)"
proof -
  assume "d < 10"
  then have "d \<in> {0, 1, 2, 3, 4, 5, 6, 7, 8, 9}"
    by auto
  then show ?thesis
    by (auto simp: is_digit_def digit_char_def)
qed

lemma digit_char_zero: "d < 10 \<Longrightarrow> 0 < d \<Longrightarrow> digit_char d \<noteq> CHR ''0''"
proof -
  assume "d < 10" "0 < d"
  then have "d \<in> {1, 2, 3, 4, 5, 6, 7, 8, 9}"
    by auto
  then show ?thesis
    by (auto simp: digit_char_def)
qed

lemma dec_not_Nil: "dec n \<noteq> []"
  by (subst dec.simps) simp

lemma dec_digits: "list_all is_digit (dec n)"
proof (induction n rule: dec.induct)
  case (1 n)
  show ?case
  proof (cases "n < 10")
    case True
    then show ?thesis
      by (subst dec.simps) (simp add: is_digit_digit_char)
  next
    case False
    then have "list_all is_digit (dec (n div 10))"
      using 1 by simp
    with False show ?thesis
      by (subst dec.simps) (simp add: is_digit_digit_char)
  qed
qed

lemma decimal_value_dec: "decimal_value (dec n) = n"
proof (induction n rule: dec.induct)
  case (1 n)
  show ?case
  proof (cases "n < 10")
    case True
    then show ?thesis
      by (subst dec.simps) (simp add: decimal_value_def digit_value_digit_char)
  next
    case False
    then have "decimal_value (dec (n div 10)) = n div 10"
      using 1 by simp
    with False show ?thesis
      by (subst dec.simps) (simp add: decimal_value_def digit_value_digit_char)
  qed
qed

lemma dec_no_leading_zero: "0 < n \<Longrightarrow> hd (dec n) \<noteq> CHR ''0''"
proof (induction n rule: dec.induct)
  case (1 n)
  show ?case
  proof (cases "n < 10")
    case True
    with 1(2) show ?thesis
      by (subst dec.simps) (simp add: digit_char_zero)
  next
    case False
    then have "hd (dec (n div 10)) \<noteq> CHR ''0''"
      using 1(1) by simp
    with False show ?thesis
      by (subst dec.simps) (simp add: dec_not_Nil)
  qed
qed

lemma candidateIp_examples:
  "map candidateIp [2, 26, 27, 251, 252, 254] =
     [''192.168.49.2'', ''192.168.49.26'', ''192.168.49.27'', ''192.168.49.251'',
      ''192.168.49.252'', ''192.168.49.254'']"
  by (simp add: candidateIp_def dec.simps digit_char_def)

lemma batch_starts: "progression 2 254 batchSize = [2, 27, 52, 77, 102, 127, 152, 177, 202, 227, 252]"
  by (simp add: progression.simps batchSize_def)

lemma batches_explicit:
  "map batch [2, 27, 52, 77, 102, 127, 152, 177, 202, 227, 252] =
     [[2..<27], [27..<52], [52..<77], [77..<102], [102..<127], [127..<152], [152..<177],
      [177..<202], [202..<227], [227..<252], [252..<255]]"
  by (simp add: batch_def batchSize_def)

lemma batches_cover: "concat (map batch [2, 27, 52, 77, 102, 127, 152, 177, 202, 227, 252]) = [2..<255]"
  unfolding batches_explicit
  by (simp add: upt_add_eq_append[symmetric] del: upt_Suc)

lemma batch_sizes:
  "map (\<lambda>b. length (batch b)) (progression 2 254 batchSize) = [25, 25, 25, 25, 25, 25, 25, 25, 25, 25, 3]"
  unfolding batch_starts by (simp add: batch_def batchSize_def)

text \<open>
  C3, as amended. The scanner takes the hosts 2 to 254 of 192.168.49.0/24 in batches that
  start at 2, 27, 52, ..., 252; each batch holds 25 consecutive addresses, but for the
  last one, 252 to 254, which holds three. The batches are visited in ascending order.
  The probes of a visited batch run concurrently: the probes of all its addresses are
  started, each with a timeout of 500 ms, before the first of them is awaited, and all
  are awaited before the results are inspected. The scan stops at the first batch with a
  reachable address and returns the first reachable address of that batch, and it returns
  nothing when no batch has one. The address probed for the host number \<open>i\<close> is the text
  \<open>192.168.49.\<close> followed by \<open>i\<close> in decimal without a leading zero.
\<close>

theorem subnet_scan_batches:
  "progression 2 254 batchSize = [2, 27, 52, 77, 102, 127, 152, 177, 202, 227, 252]
   \<and> map batch (progression 2 254 batchSize) =
       [[2..<27], [27..<52], [52..<77], [77..<102], [102..<127], [127..<152], [152..<177],
        [177..<202], [202..<227], [227..<252], [252..<255]]
   \<and> map (\<lambda>b. length (batch b)) (progression 2 254 batchSize) =
       [25, 25, 25, 25, 25, 25, 25, 25, 25, 25, 3]
   \<and> concat (map batch (progression 2 254 batchSize)) = [2..<255]
   \<and> fst (discoverP2pClientIp r) =
       (case find (hit r) (progression 2 254 batchSize) of
          None \<Rightarrow> None
        | Some b \<Rightarrow> Some (candidateIp (hd (filter (reachable r) (batch b)))))
   \<and> filter is_probe (snd (discoverP2pClientIp r)) =
       map (\<lambda>i. Probe (candidateIp i) 500)
         (concat (map batch
            (takeWhile (\<lambda>b. \<not> hit r b) (progression 2 254 batchSize)
             @ take 1 (dropWhile (\<lambda>b. \<not> hit r b) (progression 2 254 batchSize)))))
   \<and> filter (\<lambda>e. is_probe e \<or> is_await e) (snd (discoverP2pClientIp r)) =
       concat (map (\<lambda>b. map (\<lambda>i. Probe (candidateIp i) 500) (batch b)
                         @ map (\<lambda>i. Await (candidateIp i)) (batch b))
                 (visited r (progression 2 254 batchSize)))
   \<and> take 11 (candidateIp i) = ''192.168.49.''
   \<and> list_all is_digit (drop 11 (candidateIp i))
   \<and> decimal_value (drop 11 (candidateIp i)) = i
   \<and> hd (drop 11 (candidateIp (Suc i))) \<noteq> CHR ''0''
   \<and> map candidateIp [2, 26, 27, 251, 252, 254] =
       [''192.168.49.2'', ''192.168.49.26'', ''192.168.49.27'', ''192.168.49.251'',
        ''192.168.49.252'', ''192.168.49.254'']"
proof -
  have a: "fst (discoverP2pClientIp r) = fst (batch_loop r (progression 2 254 batchSize))"
    by (simp add: discoverP2pClientIp_def Let_def)
  have b: "filter is_probe (snd (discoverP2pClientIp r))
             = filter is_probe (snd (batch_loop r (progression 2 254 batchSize)))"
    by (simp add: discoverP2pClientIp_def Let_def)
  have c: "filter (\<lambda>e. is_probe e \<or> is_await e) (snd (discoverP2pClientIp r))
             = filter (\<lambda>e. is_probe e \<or> is_await e)
                 (snd (batch_loop r (progression 2 254 batchSize)))"
    by (simp add: discoverP2pClientIp_def Let_def)
  have d: "take 11 (candidateIp i) = ''192.168.49.''"
    "drop 11 (candidateIp i) = dec i" "drop 11 (candidateIp (Suc i)) = dec (Suc i)"
    by (simp_all add: candidateIp_def)
  have e: "hd (dec (Suc i)) \<noteq> CHR ''0''"
    by (rule dec_no_leading_zero) simp
  have scan: "fst (discoverP2pClientIp r) =
       (case find (hit r) (progression 2 254 batchSize) of
          None \<Rightarrow> None
        | Some b \<Rightarrow> Some (candidateIp (hd (filter (reachable r) (batch b)))))"
    unfolding a by (rule batch_loop_result)
  have probes: "filter is_probe (snd (discoverP2pClientIp r)) =
       map (\<lambda>i. Probe (candidateIp i) 500)
         (concat (map batch
            (takeWhile (\<lambda>b. \<not> hit r b) (progression 2 254 batchSize)
             @ take 1 (dropWhile (\<lambda>b. \<not> hit r b) (progression 2 254 batchSize)))))"
    unfolding b by (rule batch_loop_probes)
  have async: "filter (\<lambda>e. is_probe e \<or> is_await e) (snd (discoverP2pClientIp r)) =
       concat (map (\<lambda>b. map (\<lambda>i. Probe (candidateIp i) 500) (batch b)
                         @ map (\<lambda>i. Await (candidateIp i)) (batch b))
                 (visited r (progression 2 254 batchSize)))"
    unfolding c by (rule batch_loop_async)
  have shape: "progression 2 254 batchSize = [2, 27, 52, 77, 102, 127, 152, 177, 202, 227, 252]"
    "map batch (progression 2 254 batchSize) =
       [[2..<27], [27..<52], [52..<77], [77..<102], [102..<127], [127..<152], [152..<177],
        [177..<202], [202..<227], [227..<252], [252..<255]]"
    "concat (map batch (progression 2 254 batchSize)) = [2..<255]"
    using batches_explicit batches_cover by (simp_all only: batch_starts)
  show ?thesis
    using shape scan probes async batch_sizes d(1) dec_digits [of i] decimal_value_dec [of i] e
      candidateIp_examples
    unfolding d(2) d(3) by blast
qed

text \<open>
  C3 as stated fails: the batches do not all hold 25 addresses. The loop
  \<open>for (batchStart in 2..254 step batchSize)\<close> ends with \<open>batchStart = 252\<close>, and
  \<open>minOf(batchStart + batchSize - 1, 254)\<close> cuts that batch to the three addresses 252,
  253 and 254.
\<close>

theorem subnet_scan_last_batch_counterexample:
  "last (progression 2 254 batchSize) = 252
   \<and> batch 252 = [252, 253, 254]
   \<and> \<not> list_all (\<lambda>b. length (batch b) = 25) (progression 2 254 batchSize)"
  unfolding batch_starts by (simp add: batch_def batchSize_def)

section \<open>Address resolution: theorems\<close>

lemma resolveAny_Inr: "resolveAnyP2pClientFromArp f = Inr (arp_value f, arp_events f)"
  by (simp add: arp_value_def arp_events_def resolveAnyP2pClientFromArp_def arp_try_block_def
        split: read_result.splits option.splits)

lemma arp_events_cases:
  "arp_events f = [ReadArpFile, Log ErrorReadingArp]
   \<or> (\<exists>t. arp_events f = [ReadArpFile, Log (ArpTableDump t), Log NoClientInArp])
   \<or> (\<exists>t ip. arp_events f = [ReadArpFile, Log (ArpTableDump t), Log (FoundFromArp ip)])"
  by (simp add: arp_events_def resolveAnyP2pClientFromArp_def arp_try_block_def
        split: read_result.splits option.splits)

lemma arp_events_stages [simp]: "stages_run (arp_events f) = []"
  using arp_events_cases [of f] by auto

lemma arp_events_ops [simp]: "filter is_operation (arp_events f) = [ReadArpFile]"
  using arp_events_cases [of f] by auto

lemma arp_events_outcome [simp]: "filter is_outcome (arp_events f) = []"
  using arp_events_cases [of f] by auto

lemma arp_events_assign [simp]: "assignments (arp_events f) = []"
  using arp_events_cases [of f] by auto

lemma stages_run_append [simp]: "stages_run (xs @ ys) = stages_run xs @ stages_run ys"
  by (induction xs) (simp_all split: option.splits)

lemma assignments_append [simp]: "assignments (xs @ ys) = assignments xs @ assignments ys"
  by (induction xs) (simp_all split: option.splits)

lemma probes_stages [simp]: "stages_run (map (\<lambda>i. Probe (f i) t) xs) = []"
  by (induction xs) simp_all

lemma probes_assign [simp]: "assignments (map (\<lambda>i. Probe (f i) t) xs) = []"
  by (induction xs) simp_all

lemma awaits_stages [simp]: "stages_run (map (\<lambda>i. Await (f i)) xs) = []"
  by (induction xs) simp_all

lemma awaits_assign [simp]: "assignments (map (\<lambda>i. Await (f i)) xs) = []"
  by (induction xs) simp_all

lemma batch_loop_stages [simp]: "stages_run (snd (batch_loop r bs)) = []"
  by (induction bs) (simp_all add: Let_def)

lemma batch_loop_outcome [simp]: "filter is_outcome (snd (batch_loop r bs)) = []"
  by (induction bs) (simp_all add: Let_def filter_map comp_def)

lemma batch_loop_assign [simp]: "assignments (snd (batch_loop r bs)) = []"
  by (induction bs) (simp_all add: Let_def)

lemma batch_loop_ops [simp]:
  "filter is_operation (snd (batch_loop r bs)) = filter is_probe (snd (batch_loop r bs))"
  by (induction bs) (simp_all add: Let_def filter_map comp_def)

lemma removeGroup_listener_stages [simp]: "stages_run (removeGroup_listener r) = []"
  by (cases r) simp_all

lemma removeGroup_listener_ops [simp]: "filter is_operation (removeGroup_listener r) = []"
  by (cases r) simp_all

lemma removeGroup_listener_assign [simp]: "assignments (removeGroup_listener r) = []"
  by (cases r) simp_all

lemma removeGroup_listener_outcome [simp]:
  "filter is_outcome (removeGroup_listener r) = removeGroup_listener r"
  by (cases r) simp_all

lemma arp_events_length: "length (arp_events f) \<noteq> 0"
  using arp_events_cases [of f] by auto

lemma assign_from_arp_eq:
  "assign_from_arp w s =
     Inr \<lparr>clientIp = arp_value (arpFile w (arpReads s)), arpReads = Suc (arpReads s),
          trace = trace s @ arp_events (arpFile w (arpReads s))
                  @ [AssignClientIp (arp_value (arpFile w (arpReads s)))]\<rparr>"
  by (simp add: assign_from_arp_def resolveAny_Inr then_do_def)

lemma retry_range: "progression 1 3 1 = [1, 2, 3]"
  by (simp add: progression.simps)

lemma removeGroup_listener_eq: "removeGroup_listener r = [OnFailure (failure_message r)]"
  by (cases r) (simp_all add: failure_message_def)

lemmas resolver_defs =
  new_second_scope_def step1_def step2_def step3_def step4_def report_def
  assign_from_arp_eq then_do_def stage_value_def stage_order_def stage_ops_def
  discoverP2pClientIp_def Let_def numeral_2_eq_2 numeral_3_eq_3 removeGroup_listener_eq

lemma resolver_run:
  "\<exists>s. new_second_scope w mac = Inr s
     \<and> (stages_run (trace s), clientIp s) = run_stages (stage_value w mac) stage_order
     \<and> filter is_operation (trace s) = concat (map (stage_ops w mac) (stages_run (trace s)))
     \<and> filter is_outcome (trace s) =
         (case clientIp s of
            Some ip \<Rightarrow> [OnConnected ip]
          | None \<Rightarrow> [RemoveGroup, OnFailure (failure_message (removeGroup w))])
     \<and> take 3 (rev (trace s)) =
         (case clientIp s of
            Some ip \<Rightarrow> [OnConnected ip, Log Separator, Log (ConnectedGoMode ip)]
          | None \<Rightarrow> [OnFailure (failure_message (removeGroup w)), RemoveGroup,
                     Log CouldNotResolveLog])
     \<and> filter (\<lambda>v. v \<noteq> None) (assignments (trace s)) =
         (case clientIp s of None \<Rightarrow> [] | Some ip \<Rightarrow> [Some ip])
     \<and> last (assignments (trace s)) = clientIp s
     \<and> take 3 (trace s) =
         [Log (WaitingForDhcp (DHCP_SETTLE_DELAY_MS w)), Delay (DHCP_SETTLE_DELAY_MS w),
          ResolveIpFromArp mac]"
proof -
  consider
    (mac_arp) ip where "resolveIpFromArp w mac = Some ip"
  | (mac_free) ip where "resolveIpFromArp w mac = None" "arp_value (arpFile w 0) = Some ip"
  | (retry1) ip where "resolveIpFromArp w mac = None" "arp_value (arpFile w 0) = None"
      "arp_value (arpFile w 1) = Some ip"
  | (retry2) ip where "resolveIpFromArp w mac = None" "arp_value (arpFile w 0) = None"
      "arp_value (arpFile w 1) = None" "arp_value (arpFile w 2) = Some ip"
  | (retry3) ip where "resolveIpFromArp w mac = None" "arp_value (arpFile w 0) = None"
      "arp_value (arpFile w 1) = None" "arp_value (arpFile w 2) = None"
      "arp_value (arpFile w 3) = Some ip"
  | (scan) "resolveIpFromArp w mac = None" "arp_value (arpFile w 0) = None"
      "arp_value (arpFile w 1) = None" "arp_value (arpFile w 2) = None"
      "arp_value (arpFile w 3) = None"
    by (metis option.exhaust)
  then show ?thesis
  proof cases
    case mac_arp
    then show ?thesis unfolding new_second_scope_def step3_def retry_range
      by (simp add: resolver_defs)
  next
    case mac_free
    then show ?thesis unfolding new_second_scope_def step3_def retry_range
      by (simp add: resolver_defs)
  next
    case retry1
    then show ?thesis unfolding new_second_scope_def step3_def retry_range
      by (simp add: resolver_defs)
  next
    case retry2
    then show ?thesis unfolding new_second_scope_def step3_def retry_range
      by (simp add: resolver_defs)
  next
    case retry3
    then show ?thesis unfolding new_second_scope_def step3_def retry_range
      by (simp add: resolver_defs)
  next
    case scan
    then show ?thesis unfolding new_second_scope_def step3_def retry_range
      by (cases "fst (batch_loop (isReachable w) (progression 2 254 batchSize))")
         (simp_all add: resolver_defs)
  qed
qed

lemma arp_value_ReadThrows [simp]: "arp_value ReadThrows = None"
  by (simp add: arp_value_def resolveAnyP2pClientFromArp_def arp_try_block_def)

lemma scan_nothing_reachable [simp]: "fst (discoverP2pClientIp (\<lambda>a t. Unreachable)) = None"
proof -
  have "find (hit (\<lambda>a t. Unreachable)) bs = None" for bs
    by (induction bs) (simp_all add: hit_def reachable_def)
  then show ?thesis
    by (simp add: discoverP2pClientIp_def Let_def batch_loop_result)
qed

lemma all_fail_stages:
  "run_stages (stage_value env_all_fail mac) stage_order
     = ([MacArp, MacFreeArp, ArpRetry 1, ArpRetry 2, ArpRetry 3, SubnetScan], None)"
  by (simp add: stage_value_def stage_order_def env_all_fail_def)

lemma mac_hit_stages:
  "run_stages (stage_value (env_mac_hit ip) mac) stage_order = ([MacArp], Some ip)"
  by (simp add: stage_value_def stage_order_def env_mac_hit_def)




text \<open>
  C2. The stages are tried in one fixed order: MAC-based ARP lookup, MAC-free ARP lookup,
  up to three ARP retries (each after a delay of 2000 ms), subnet scan. Every run of the
  resolver ends, executes exactly the stages up to and including the first one that
  yields an address, and performs no operation of a later stage. The value of that stage
  is what the run hands to its caller: the run makes exactly one callback, as its last
  action, \<open>onConnected\<close> with the value of the earliest stage that succeeds, or, when all
  stages fail, the teardown of the group followed by \<open>onFailure\<close>.
\<close>

theorem resolver_stage_precedence:
  "\<exists>s. new_second_scope w mac = Inr s
     \<and> (stages_run (trace s), clientIp s) = run_stages (stage_value w mac) stage_order
     \<and> filter is_operation (trace s) = concat (map (stage_ops w mac) (stages_run (trace s)))
     \<and> filter is_outcome (trace s) =
         (case snd (run_stages (stage_value w mac) stage_order) of
            Some ip \<Rightarrow> [OnConnected ip]
          | None \<Rightarrow> [RemoveGroup, OnFailure (failure_message (removeGroup w))])
     \<and> last (trace s) =
         (case snd (run_stages (stage_value w mac) stage_order) of
            Some ip \<Rightarrow> OnConnected ip
          | None \<Rightarrow> OnFailure (failure_message (removeGroup w)))"
proof -
  obtain s where s: "new_second_scope w mac = Inr s"
    "(stages_run (trace s), clientIp s) = run_stages (stage_value w mac) stage_order"
    "filter is_operation (trace s) = concat (map (stage_ops w mac) (stages_run (trace s)))"
    "filter is_outcome (trace s) =
       (case clientIp s of
          Some ip \<Rightarrow> [OnConnected ip]
        | None \<Rightarrow> [RemoveGroup, OnFailure (failure_message (removeGroup w))])"
    "take 3 (rev (trace s)) =
       (case clientIp s of
          Some ip \<Rightarrow> [OnConnected ip, Log Separator, Log (ConnectedGoMode ip)]
        | None \<Rightarrow> [OnFailure (failure_message (removeGroup w)), RemoveGroup,
                   Log CouldNotResolveLog])"
    using resolver_run [of w mac] by blast
  from s(2) have v: "snd (run_stages (stage_value w mac) stage_order) = clientIp s"
    by (metis snd_conv)
  from s(5) have ne: "trace s \<noteq> []"
    by (auto split: option.splits)
  from s(5) have "hd (rev (trace s)) =
      (case clientIp s of
         Some ip \<Rightarrow> OnConnected ip
       | None \<Rightarrow> OnFailure (failure_message (removeGroup w)))"
    by (cases "rev (trace s)") (auto split: option.splits)
  with ne have l: "last (trace s) =
      (case clientIp s of
         Some ip \<Rightarrow> OnConnected ip
       | None \<Rightarrow> OnFailure (failure_message (removeGroup w)))"
    by (simp add: hd_rev)
  show ?thesis
    unfolding v using s(1) s(2) s(3) s(4) l by blast
qed

text \<open>
  C4, as amended. When every stage fails, the run ends with the error log line, the
  \<open>removeGroup\<close> request and then exactly one call of the failure callback, and makes no
  other callback. The message is "Could not resolve client IP" after a successful
  teardown and "Could not resolve client IP, cleanup failed" after a failed one; the
  failure of the teardown is folded into the message and is not logged.
\<close>

theorem resolution_failure_teardown:
  "snd (run_stages (stage_value w mac) stage_order) = None \<Longrightarrow>
   \<exists>s. new_second_scope w mac = Inr s
     \<and> clientIp s = None
     \<and> filter is_outcome (trace s) = [RemoveGroup, OnFailure (failure_message (removeGroup w))]
     \<and> take 3 (rev (trace s)) =
         [OnFailure (failure_message (removeGroup w)), RemoveGroup, Log CouldNotResolveLog]
     \<and> failure_message ActionSuccess = ''Could not resolve client IP''
     \<and> failure_message (ActionFailure code) = ''Could not resolve client IP, cleanup failed''"
proof -
  assume fails: "snd (run_stages (stage_value w mac) stage_order) = None"
  obtain s where s: "new_second_scope w mac = Inr s"
    "(stages_run (trace s), clientIp s) = run_stages (stage_value w mac) stage_order"
    "filter is_outcome (trace s) =
       (case clientIp s of
          Some ip \<Rightarrow> [OnConnected ip]
        | None \<Rightarrow> [RemoveGroup, OnFailure (failure_message (removeGroup w))])"
    "take 3 (rev (trace s)) =
       (case clientIp s of
          Some ip \<Rightarrow> [OnConnected ip, Log Separator, Log (ConnectedGoMode ip)]
        | None \<Rightarrow> [OnFailure (failure_message (removeGroup w)), RemoveGroup,
                   Log CouldNotResolveLog])"
    using resolver_run [of w mac] by blast
  from s(2) fails have none: "clientIp s = None"
    by (metis snd_conv)
  show ?thesis
    using s(1) s(3) s(4) none by (simp add: failure_message_def)
qed

theorem resolution_failure_teardown_witness:
  "snd (run_stages (stage_value env_all_fail ''aa:bb:cc:dd:ee:ff'') stage_order) = None
   \<and> (\<exists>s. new_second_scope env_all_fail ''aa:bb:cc:dd:ee:ff'' = Inr s
        \<and> filter is_outcome (trace s) =
            [RemoveGroup, OnFailure ''Could not resolve client IP, cleanup failed''])"
proof -
  have h: "snd (run_stages (stage_value env_all_fail ''aa:bb:cc:dd:ee:ff'') stage_order) = None"
    by (simp add: all_fail_stages)
  from resolution_failure_teardown [OF h, of 2]
  show ?thesis using h by (auto simp: env_all_fail_def)
qed

text \<open>
  C4 as stated fails where it says that the failure of the teardown is logged: in a run
  where every stage fails and \<open>removeGroup\<close> reports the error code 2, the last log line
  precedes the teardown request, and the teardown is followed by the failure callback
  alone.
\<close>

theorem teardown_failure_not_logged_counterexample:
  "run_trace (new_second_scope env_all_fail ''aa:bb:cc:dd:ee:ff'') \<noteq> Inl Exception
   \<and> (case run_trace (new_second_scope env_all_fail ''aa:bb:cc:dd:ee:ff'') of
        Inl e \<Rightarrow> []
      | Inr evs \<Rightarrow> take 3 (rev evs))
       = [OnFailure ''Could not resolve client IP, cleanup failed'', RemoveGroup,
          Log CouldNotResolveLog]
   \<and> \<not> is_log (OnFailure ''Could not resolve client IP, cleanup failed'')
   \<and> \<not> is_log RemoveGroup"
proof -
  obtain s where s: "new_second_scope env_all_fail ''aa:bb:cc:dd:ee:ff'' = Inr s"
    "(stages_run (trace s), clientIp s)
       = run_stages (stage_value env_all_fail ''aa:bb:cc:dd:ee:ff'') stage_order"
    "take 3 (rev (trace s)) =
       (case clientIp s of
          Some ip \<Rightarrow> [OnConnected ip, Log Separator, Log (ConnectedGoMode ip)]
        | None \<Rightarrow> [OnFailure (failure_message (removeGroup env_all_fail)), RemoveGroup,
                   Log CouldNotResolveLog])"
    using resolver_run [of env_all_fail "''aa:bb:cc:dd:ee:ff''"] by blast
  from s(2) have none: "clientIp s = None"
    by (simp add: all_fail_stages)
  show ?thesis
    using s(1) s(3) none by (simp add: run_trace_def failure_message_def env_all_fail_def)
qed



section \<open>MAC-free ARP lookup: theorems\<close>

lemma split_ws_first: "firstOrNull (split_ws s) = Some (takeWhile (\<lambda>c. \<not> is_regex_space c) s)"
proof (cases "dropWhile (\<lambda>c. \<not> is_regex_space c) s = []")
  case True
  then have all: "\<forall>x\<in>set s. \<not> is_regex_space x"
    by simp
  then have tw: "takeWhile (\<lambda>c. \<not> is_regex_space c) s = s"
    by simp
  have "split_ws s = [s]"
    using all by (subst split_ws.simps) simp
  then show ?thesis
    by (simp add: firstOrNull_def tw)
next
  case False
  then have "split_ws s = takeWhile (\<lambda>c. \<not> is_regex_space c) s
      # split_ws (dropWhile is_regex_space (dropWhile (\<lambda>c. \<not> is_regex_space c) s))"
    by (simp only: split_ws.simps [of s] Let_def False if_False)
  then show ?thesis
    by (simp only: firstOrNull_def list.case)
qed

lemma split_ws_no_space: "\<forall>x\<in>set s. \<not> is_regex_space x \<Longrightarrow> split_ws s = [s]"
  by (subst split_ws.simps) simp

lemma arp_line_loop_find:
  "arp_line_loop ls = find is_client_field (map first_field ls)"
  by (induction ls) (simp_all add: split_ws_first first_field_def is_client_field_def)

lemma arp_value_Contents:
  "arp_value (Contents t) = find is_client_field (map first_field (lines t))"
  by (simp add: arp_value_def resolveAnyP2pClientFromArp_def arp_try_block_def arp_line_loop_find
        split: option.splits)

lemma bad_line: "lines ''192.168.49.x'' = [''192.168.49.x'']"
  by (simp add: lines_def)

lemma bad_trim: "trim ''192.168.49.x'' = ''192.168.49.x''"
  by (simp add: trim_def isWhitespace_def)

lemma bad_split: "split_ws ''192.168.49.x'' = [''192.168.49.x'']"
  by (rule split_ws_no_space) (simp add: is_regex_space_def)

lemma lines_from_line:
  "no_line_break x \<Longrightarrow> lines_from acc (x @ CHR 0x0A # rest) = (rev acc @ x) # lines_from [] rest"
  by (induction x arbitrary: acc) (simp_all add: no_line_break_def)


lemma lines_from_rows:
  "list_all no_line_break rows \<Longrightarrow>
   lines_from [] (concat (map (\<lambda>r. r @ [CHR 0x0A]) rows)) = rows @ [[]]"
proof (induction rows)
  case Nil
  then show ?case by simp
next
  case (Cons r rows)
  then have "lines_from [] (r @ CHR 0x0A # concat (map (\<lambda>r. r @ [CHR 0x0A]) rows))
      = r # lines_from [] (concat (map (\<lambda>r. r @ [CHR 0x0A]) rows))"
    using lines_from_line [of r "[]"] by simp
  with Cons show ?case by simp
qed

lemma no_line_break_append [simp]:
  "no_line_break (x @ y) = (no_line_break x \<and> no_line_break y)"
  by (simp add: no_line_break_def)

lemma no_line_break_Cons [simp]:
  "no_line_break (c # x) = (c \<noteq> CHR 0x0A \<and> c \<noteq> CHR 0x0D \<and> no_line_break x)"
  by (simp add: no_line_break_def)

lemma no_line_break_Nil [simp]: "no_line_break []"
  by (simp add: no_line_break_def)

lemma is_digit_no_line_break: "list_all is_digit x \<Longrightarrow> no_line_break x"
  by (induction x) (auto simp: is_digit_def)

lemma no_line_break_dec [simp]: "no_line_break (dec n)"
  by (rule is_digit_no_line_break) (rule dec_digits)

lemma no_line_break_show_ip [simp]: "no_line_break (show_ip a)"
  by (cases a) (simp add: show_ip_def)

lemma no_line_break_header: "no_line_break arp_header"
  by (simp add: arp_header_def)

lemma no_line_break_row:
  "no_line_break (entry_hw e) \<Longrightarrow> no_line_break (entry_iface e) \<Longrightarrow> no_line_break (render_row e)"
  by (simp add: render_row_def)

lemma lines_render_table:
  assumes "list_all (\<lambda>e. no_line_break (entry_hw e) \<and> no_line_break (entry_iface e)) es"
  shows "lines (render_table es) = arp_header # map render_row es @ [[]]"
proof -
  have rows: "list_all no_line_break (map render_row es)"
    using assms by (induction es) (simp_all add: no_line_break_row)
  have "concat (map (\<lambda>e. render_row e @ [CHR 0x0A]) es)
      = concat (map (\<lambda>r. r @ [CHR 0x0A]) (map render_row es))"
    by (simp add: comp_def)
  then show ?thesis
    using lines_from_line [OF no_line_break_header, of "[]"] lines_from_rows [OF rows]
    by (simp add: lines_def render_table_def)
qed


lemma trim_keep:
  assumes "A \<noteq> []" "\<not> isWhitespace (hd A)" "\<not> isWhitespace (last A)"
  shows "\<exists>z. trim (A @ B) = A @ z"
proof -
  from assms have keep_front: "dropWhile isWhitespace (A @ B) = A @ B"
    by (cases A) simp_all
  from assms have keep_back: "dropWhile isWhitespace (rev A) = rev A"
    by (cases A rule: rev_cases) simp_all
  have "dropWhile isWhitespace (rev B @ rev A) = rev A
        \<or> dropWhile isWhitespace (rev B @ rev A) = dropWhile isWhitespace (rev B) @ rev A"
    by (simp add: dropWhile_append keep_back)
  then show ?thesis
  proof
    assume "dropWhile isWhitespace (rev B @ rev A) = rev A"
    then have "trim (A @ B) = A @ []"
      by (simp add: trim_def keep_front)
    then show ?thesis by blast
  next
    assume "dropWhile isWhitespace (rev B @ rev A) = dropWhile isWhitespace (rev B) @ rev A"
    then have "trim (A @ B) = A @ rev (dropWhile isWhitespace (rev B))"
      by (simp add: trim_def keep_front)
    then show ?thesis by blast
  qed
qed

lemma ip_char_not_space: "ip_char c \<Longrightarrow> \<not> is_regex_space c \<and> \<not> isWhitespace c"
  by (auto simp: ip_char_def is_digit_def is_regex_space_def isWhitespace_def)

lemma dec_ip_chars: "list_all ip_char (dec n)"
  using dec_digits [of n] by (simp add: list_all_iff ip_char_def)


lemma show_ip_chars: "list_all ip_char (show_ip a)"
  by (cases a) (simp add: show_ip_def dec_ip_chars, simp add: ip_char_def)

lemma show_ip_hd: "show_ip a \<noteq> [] \<and> ip_char (hd (show_ip a))"
proof (cases a)
  case (fields a1 a2 a3 a4)
  have "dec a1 \<noteq> []" by (rule dec_not_Nil)
  moreover have "list_all ip_char (dec a1)" by (rule dec_ip_chars)
  ultimately show ?thesis
    using fields by (cases "dec a1") (simp_all add: show_ip_def)
qed

lemma first_field_row: "first_field (render_row e) = show_ip (entry_ip e)"
proof -
  define A where "A = show_ip (entry_ip e) @ ''     0''"
  define B where "B = ''x1         0x2         '' @ entry_hw e @ ''     *        '' @ entry_iface e"
  have row: "render_row e = A @ B"
    by (simp add: render_row_def A_def B_def)
  have "A \<noteq> []" "\<not> isWhitespace (last A)"
    by (simp_all add: A_def isWhitespace_def)
  moreover have "\<not> isWhitespace (hd A)"
    using show_ip_hd [of "entry_ip e"] ip_char_not_space by (simp add: A_def)
  ultimately obtain z where z: "trim (A @ B) = A @ z"
    using trim_keep by blast
  have "\<forall>c\<in>set (show_ip (entry_ip e)). \<not> is_regex_space c"
    using show_ip_chars [of "entry_ip e"] ip_char_not_space by (auto simp: list_all_iff)
  then have "takeWhile (\<lambda>c. \<not> is_regex_space c) (show_ip (entry_ip e) @ ''     0'' @ z)
      = show_ip (entry_ip e)"
    by (simp add: is_regex_space_def)
  moreover have "first_field (render_row e) = takeWhile (\<lambda>c. \<not> is_regex_space c) (A @ z)"
    by (simp only: first_field_def row z)
  ultimately show ?thesis
    by (simp add: A_def)
qed

lemma first_field_header: "first_field arp_header = ''IP''"
  by (simp add: first_field_def trim_def arp_header_def isWhitespace_def is_regex_space_def)

lemma first_field_Nil: "first_field [] = []"
  by (simp add: first_field_def trim_def)


lemma dec_inj: "dec n = dec m \<Longrightarrow> n = m"
  by (metis decimal_value_dec)

lemma dec_literals:
  "dec 192 = ''192''" "dec 168 = ''168''" "dec 49 = ''49''" "dec 1 = ''1''" "dec (Suc 0) = ''1''"
  by (simp_all add: dec.simps digit_char_def)

lemma split_dot:
  assumes "list_all is_digit x" "list_all is_digit y" "x @ CHR ''.'' # r = y @ CHR ''.'' # q"
  shows "x = y \<and> r = q"
proof -
  have "takeWhile is_digit (x @ CHR ''.'' # r) = x" "takeWhile is_digit (y @ CHR ''.'' # q) = y"
    using assms(1,2) by (simp_all add: list_all_iff is_digit_def)
  with assms(3) have "x = y" by simp
  with assms(3) show ?thesis by simp
qed

lemma show_ip_prefix:
  assumes "show_ip (a1, a2, a3, a4) = ''192.168.49.'' @ t"
  shows "a1 = 192 \<and> a2 = 168 \<and> a3 = 49 \<and> dec a4 = t"
proof -
  from assms have e1: "dec a1 @ CHR ''.'' # (dec a2 @ CHR ''.'' # (dec a3 @ CHR ''.'' # dec a4))
      = dec 192 @ CHR ''.'' # (dec 168 @ CHR ''.'' # (dec 49 @ CHR ''.'' # t))"
    by (simp add: show_ip_def dec_literals)
  from split_dot [OF dec_digits dec_digits e1]
  have s1: "dec a1 = dec 192"
    and e2: "dec a2 @ CHR ''.'' # (dec a3 @ CHR ''.'' # dec a4) = dec 168 @ CHR ''.'' # (dec 49 @ CHR ''.'' # t)"
    by simp_all
  from split_dot [OF dec_digits dec_digits e2]
  have s2: "dec a2 = dec 168" and e3: "dec a3 @ CHR ''.'' # dec a4 = dec 49 @ CHR ''.'' # t"
    by simp_all
  from split_dot [OF dec_digits dec_digits e3]
  have s3: "dec a3 = dec 49" and s4: "dec a4 = t"
    by simp_all
  from s1 s2 s3 s4 show ?thesis
    using dec_inj by blast
qed

lemma show_ip_in_subnet:
  "startsWith (show_ip a) ''192.168.49.'' = in_group_subnet a"
proof (cases a)
  case (fields a1 a2 a3 a4)
  show ?thesis
  proof
    assume "startsWith (show_ip a) ''192.168.49.''"
    then have "take (length ''192.168.49.'') (show_ip (a1, a2, a3, a4)) = ''192.168.49.''"
      by (simp only: startsWith_def fields)
    then have "show_ip (a1, a2, a3, a4)
        = ''192.168.49.'' @ drop (length ''192.168.49.'') (show_ip (a1, a2, a3, a4))"
      by (metis append_take_drop_id)
    from show_ip_prefix [OF this] show "in_group_subnet a"
      by (simp add: in_group_subnet_def fields)
  next
    assume "in_group_subnet a"
    then show "startsWith (show_ip a) ''192.168.49.''"
      by (simp add: in_group_subnet_def fields show_ip_def dec_literals startsWith_def)
  qed
qed

lemma show_ip_owner: "(show_ip a = ''192.168.49.1'') = (a = owner_address)"
proof (cases a)
  case (fields a1 a2 a3 a4)
  show ?thesis
  proof
    assume "show_ip a = ''192.168.49.1''"
    then have "show_ip (a1, a2, a3, a4) = ''192.168.49.'' @ ''1''"
      by (simp add: fields)
    from show_ip_prefix [OF this]
    have "a1 = 192" "a2 = 168" "a3 = 49" "dec a4 = dec 1"
      by (simp_all only: dec_literals)
    then show "a = owner_address"
      using dec_inj [of a4 1] by (simp add: owner_address_def fields)
  next
    assume "a = owner_address"
    then show "show_ip a = ''192.168.49.1''"
      by (simp add: owner_address_def show_ip_def dec_literals)
  qed
qed

lemma client_field_entry: "is_client_field (show_ip (entry_ip e)) = is_client_entry e"
  by (simp add: is_client_field_def is_client_entry_def show_ip_in_subnet show_ip_owner)

lemma not_client_field: "\<not> is_client_field []" "\<not> is_client_field ''IP''"
  by (simp_all add: is_client_field_def startsWith_def)

lemma find_rows:
  "find is_client_field (map first_field (map render_row es @ [[]]))
     = map_option (\<lambda>e. show_ip (entry_ip e)) (find is_client_entry es)"
  by (induction es)
     (simp_all add: first_field_Nil first_field_row client_field_entry not_client_field)

text \<open>
  C5. The MAC-free lookup takes the entries of the ARP table in order and returns the
  address of the first entry whose address lies in 192.168.49.0/24 and is not the group
  owner's 192.168.49.1, and \<open>null\<close> when there is none. On any text the file may hold,
  the entries are its lines and the address of an entry is the first field of the line;
  on the text of a table of entries (whose other columns hold no line break), the first
  such field is the address, in dotted decimal, of the first such entry.
\<close>

theorem mac_free_arp_first_match:
  "list_all (\<lambda>e. no_line_break (entry_hw e) \<and> no_line_break (entry_iface e)) es \<Longrightarrow>
   (\<exists>evs. resolveAnyP2pClientFromArp (Contents (render_table es))
            = Inr (map_option (\<lambda>e. show_ip (entry_ip e)) (find is_client_entry es), evs))
   \<and> (\<exists>evs. resolveAnyP2pClientFromArp (Contents t)
            = Inr (find is_client_field (map first_field (lines t)), evs))"
proof -
  assume wf: "list_all (\<lambda>e. no_line_break (entry_hw e) \<and> no_line_break (entry_iface e)) es"
  have "arp_value (Contents (render_table es))
      = map_option (\<lambda>e. show_ip (entry_ip e)) (find is_client_entry es)"
    using find_rows [of es]
    by (simp add: arp_value_Contents lines_render_table [OF wf] first_field_header
          not_client_field)
  then show ?thesis
    using arp_value_Contents [of t] by (simp add: resolveAny_Inr)
qed

theorem mac_free_arp_first_match_witness:
  "list_all (\<lambda>e. no_line_break (entry_hw e) \<and> no_line_break (entry_iface e)) example_entries
   \<and> (\<exists>evs. resolveAnyP2pClientFromArp (Contents (render_table example_entries))
            = Inr (Some ''192.168.49.12'', evs))"
proof -
  have wf: "list_all (\<lambda>e. no_line_break (entry_hw e) \<and> no_line_break (entry_iface e))
      example_entries"
    by (simp add: example_entries_def)
  have first: "map_option (\<lambda>e. show_ip (entry_ip e)) (find is_client_entry example_entries)
      = Some ''192.168.49.12''"
    by (simp add: example_entries_def is_client_entry_def in_group_subnet_def owner_address_def
          show_ip_def dec.simps digit_char_def)
  from mac_free_arp_first_match [OF wf, of "[]", THEN conjunct1]
  show ?thesis
    using wf unfolding first by simp
qed

text \<open>
  C6, as amended. Whatever the state of the ARP file, the lookup returns and raises
  nothing. When the file cannot be read it logs the error and returns \<open>null\<close>. A text
  that can be read is not checked for being an ARP table: the lookup returns the first
  field of the first line whose first field starts with \<open>192.168.49.\<close> and is not
  \<open>192.168.49.1\<close>, and returns \<open>null\<close> only when no line has such a field.
\<close>

theorem arp_read_never_raises:
  "(\<exists>r. resolveAnyP2pClientFromArp f = Inr r)
   \<and> resolveAnyP2pClientFromArp ReadThrows = Inr (None, [ReadArpFile, Log ErrorReadingArp])
   \<and> (\<exists>evs. resolveAnyP2pClientFromArp (Contents t)
            = Inr (find is_client_field (map first_field (lines t)), evs))"
  using arp_value_Contents [of t] resolveAny_Inr [of "Contents t"] resolveAny_Inr [of f]
  by (simp add: resolveAnyP2pClientFromArp_def arp_try_block_def)

text \<open>
  C6 as stated fails for a malformed cache: a file that holds the single line
  \<open>192.168.49.x\<close>, which is no row of an ARP table and holds no IP address, does not
  yield an empty result. The lookup returns \<open>192.168.49.x\<close> as the address of the client.
\<close>

theorem malformed_cache_counterexample:
  "malformed ''192.168.49.x''
   \<and> resolveAnyP2pClientFromArp (Contents ''192.168.49.x'')
       = Inr (Some ''192.168.49.x'',
              [ReadArpFile, Log (ArpTableDump ''192.168.49.x''), Log (FoundFromArp ''192.168.49.x'')])"
  by (simp add: malformed_def row_has_columns_def bad_line bad_trim bad_split
        resolveAnyP2pClientFromArp_def arp_try_block_def firstOrNull_def startsWith_def)

section \<open>Waiting for the group info: theorems\<close>

lemma group_watch_unavailable:
  "group_watch d w (replicate n None) addr attempt =
     Inr (map (\<lambda>k. Launch d (ResolveClientIpFromGroup addr (attempt + k + 1))) [0..<n])"
proof (induction n arbitrary: attempt)
  case 0
  then show ?case by simp
next
  case (Suc n)
  have "map (\<lambda>k. Launch d (ResolveClientIpFromGroup addr (attempt + k + 1))) [0..<Suc n]
      = Launch d (ResolveClientIpFromGroup addr (attempt + 1))
        # map (\<lambda>k. Launch d (ResolveClientIpFromGroup addr (attempt + 1 + k + 1))) [0..<n]"
    by (simp only: map_upt_Suc) simp
  then show ?case
    using Suc [of "attempt + 1"]
    by (simp add: resolveClientIpFromGroup_def new_first_scope_def then_do_def del: upt_Suc)
qed

text \<open>
  C8. When the group info is unavailable, the watcher does one thing, whatever the
  attempt number: it schedules a call of itself with \<open>attempt + 1\<close> after
  \<open>CONNECTION_RETRY_DELAY_MS\<close>. Nothing caps the retries: as long as the group info stays
  unavailable, \<open>n\<close> requests schedule \<open>n\<close> retries, with the attempts counted up, and
  the failure callback is never called. When the group info is available and no client
  has the requested address, the watcher calls the failure callback once with
  \<open>ClientNotFound\<close> and schedules nothing, also when later requests would answer.
\<close>

theorem group_info_retry_policy:
  "resolveClientIpFromGroup d w None addr attempt
     = Inr [Launch d (ResolveClientIpFromGroup addr (attempt + 1))]
   \<and> new_first_scope d addr attempt = [Launch d (ResolveClientIpFromGroup addr (attempt + 1))]
   \<and> group_watch d w (replicate n None) addr attempt
     = Inr (map (\<lambda>k. Launch d (ResolveClientIpFromGroup addr (attempt + k + 1))) [0..<n])
   \<and> (find (\<lambda>c. deviceAddress c = addr) (clientList g) = None \<longrightarrow>
        resolveClientIpFromGroup d w (Some g) addr attempt = Inr [OnFailure ''ClientNotFound'']
        \<and> group_watch d w (Some g # later) addr attempt = Inr [OnFailure ''ClientNotFound''])"
  using group_watch_unavailable [of d w n addr attempt]
  by (simp add: resolveClientIpFromGroup_def new_first_scope_def then_do_def)

theorem group_info_retry_policy_witness:
  "find (\<lambda>c. deviceAddress c = ''aa:bb:cc:dd:ee:ff'') (clientList example_group) = None
   \<and> resolveClientIpFromGroup 2000 env_all_fail (Some example_group) ''aa:bb:cc:dd:ee:ff'' 1
     = Inr [OnFailure ''ClientNotFound'']
   \<and> group_watch 2000 env_all_fail [Some example_group, None] ''aa:bb:cc:dd:ee:ff'' 1
     = Inr [OnFailure ''ClientNotFound'']
   \<and> group_watch 2000 env_all_fail [None, None, None] ''aa:bb:cc:dd:ee:ff'' 1
     = Inr [Launch 2000 (ResolveClientIpFromGroup ''aa:bb:cc:dd:ee:ff'' 2),
            Launch 2000 (ResolveClientIpFromGroup ''aa:bb:cc:dd:ee:ff'' 3),
            Launch 2000 (ResolveClientIpFromGroup ''aa:bb:cc:dd:ee:ff'' 4)]"
proof -
  have h: "find (\<lambda>c. deviceAddress c = ''aa:bb:cc:dd:ee:ff'') (clientList example_group) = None"
    by (simp add: example_group_def)
  note t = group_info_retry_policy
    [of 2000 env_all_fail "''aa:bb:cc:dd:ee:ff''" 1 3 example_group "[None]"]
  have three: "replicate 3 None = [None, None, None :: GroupInfo option]"
    by (simp add: numeral_3_eq_3)
  have upt: "[0..<3] = [0, 1, 2 :: nat]"
    by (simp add: numeral_3_eq_3)
  from t h show ?thesis
    unfolding three upt
    by (simp add: resolveClientIpFromGroup_def new_first_scope_def then_do_def example_group_def)
qed

end
